theory Spec2Isabelle
  imports Main "HOL-Library.Sublist"
begin

section \<open>Values, exceptions and dictionaries\<close>

text \<open>
  The Python values that can occur in the dictionaries of \<^verbatim>\<open>searcher_prototype.py\<close>:
  what a decoded JSON response holds, plus the strings and lists the program builds itself.
  A nested dictionary is an association list looked up with \<open>map_of\<close>.
  A \<open>string\<close> stands for a Python \<^verbatim>\<open>str\<close> whose code points are all below 256,
  one \<open>char\<close> per code point.
\<close>

datatype pyval =
    PNone
  | PBool bool
  | PInt int
  | PStr string
  | PList "pyval list"
  | PDict "(string \<times> pyval) list"

text \<open>The exceptions the program can meet; the last three carry what a library reported.\<close>

datatype exn =
    TypeError
  | AttributeError
  | ProviderError string
  | RequestError string
  | OSError string

text \<open>A top-level dictionary with string keys (\<^verbatim>\<open>data\<close> in the source).\<close>

type_synonym dict = "string \<rightharpoonup> pyval"

text \<open>\<^verbatim>\<open>d.get(k, default)\<close>\<close>

definition dict_get :: "dict \<Rightarrow> string \<Rightarrow> pyval \<Rightarrow> pyval" where
  "dict_get d k dflt = (case d k of None \<Rightarrow> dflt | Some v \<Rightarrow> v)"

text \<open>
  \<^verbatim>\<open>v + [..]\<close> with a list as right operand: among the values above only a list has an
  addition that accepts a list; every other left operand raises \<^verbatim>\<open>TypeError\<close>.
  The sum is a new list; \<open>v\<close> itself is not modified.
\<close>

fun py_add_list :: "pyval \<Rightarrow> pyval list \<Rightarrow> exn + pyval" where
  "py_add_list (PList xs) ys = Inr (PList (xs @ ys))"
| "py_add_list _ ys = Inl TypeError"

section \<open>The validator\<close>

definition msg_carbon :: string where
  "msg_carbon = ''Missing carbon emissions data''"

definition msg_net_zero :: string where
  "msg_net_zero = ''Missing net-zero target''"

text \<open>\<^verbatim>\<open>data["error"] = data.get("error", []) + [msg]\<close>\<close>

definition append_error :: "dict \<Rightarrow> string \<Rightarrow> exn + dict" where
  "append_error d msg =
     (case py_add_list (dict_get d ''error'' (PList [])) [PStr msg] of
        Inl e \<Rightarrow> Inl e
      | Inr v \<Rightarrow> Inr (d(''error'' \<mapsto> v)))"

text \<open>
  \<^verbatim>\<open>validate_data\<close>, as a function of the contents of \<^verbatim>\<open>data\<close>: the two checks run one
  after the other, the second on the dictionary the first has left.
\<close>

definition validate_data :: "dict \<Rightarrow> exn + dict" where
  "validate_data d =
     (case (if d ''carbon_emissions'' = None then append_error d msg_carbon else Inr d) of
        Inl e \<Rightarrow> Inl e
      | Inr d1 \<Rightarrow>
          (if d1 ''net_zero_target'' = None then append_error d1 msg_net_zero else Inr d1))"

subsection \<open>Dictionaries as objects\<close>

text \<open>
  \<^verbatim>\<open>validate_data\<close> mutates the dictionary it is given and returns a reference to it.
  A store maps references to the dictionaries they point to; \<open>next_ref\<close> is the first
  reference that has not been handed out.
\<close>

type_synonym ref = nat

record store =
  objs :: "ref \<Rightarrow> dict"
  next_ref :: ref

definition store_set :: "store \<Rightarrow> ref \<Rightarrow> dict \<Rightarrow> store" where
  "store_set s r d = s\<lparr>objs := (objs s)(r := d)\<rparr>"

text \<open>
  \<^verbatim>\<open>validate_data\<close> on a reference: each assignment to \<^verbatim>\<open>data["error"]\<close> is written to the
  store before the next check runs; an exception leaves the store as it was when the
  exception was raised.
\<close>

definition validate_data_obj :: "store \<Rightarrow> ref \<Rightarrow> (exn + ref) \<times> store" where
  "validate_data_obj s r =
     (case (if objs s r ''carbon_emissions'' = None
            then append_error (objs s r) msg_carbon else Inr (objs s r)) of
        Inl e \<Rightarrow> (Inl e, s)
      | Inr d1 \<Rightarrow>
          (let s1 = store_set s r d1 in
           case (if objs s1 r ''net_zero_target'' = None
                 then append_error (objs s1 r) msg_net_zero else Inr (objs s1 r)) of
             Inl e \<Rightarrow> (Inl e, s1)
           | Inr d2 \<Rightarrow> (Inr r, store_set s1 r d2)))"

text \<open>A store that holds one dictionary, at reference 0.\<close>

definition one_dict :: "dict \<Rightarrow> store" where
  "one_dict d = \<lparr>objs = (\<lambda>r. Map.empty)(0 := d), next_ref = 1\<rparr>"

text \<open>
  The messages for the required fields that a dictionary lacks, in the order of the two
  checks of \<^verbatim>\<open>validate_data\<close>.
\<close>

definition missing_messages :: "dict \<Rightarrow> pyval list" where
  "missing_messages d =
     (if d ''carbon_emissions'' = None then [PStr msg_carbon] else []) @
     (if d ''net_zero_target'' = None then [PStr msg_net_zero] else [])"

section \<open>The extractor\<close>

text \<open>
  What \<^verbatim>\<open>fetch_content\<close> returns: the dictionary \<^verbatim>\<open>{"type": .., "content": ..}\<close>,
  both values strings.
\<close>

record fetched =
  ftype :: string
  fcontent :: string

subsection \<open>The two patterns\<close>

text \<open>
  Matching under \<^verbatim>\<open>re.IGNORECASE\<close>: the letters of both patterns are ASCII letters, and
  below code point 256 only the two cases of an ASCII letter are equivalent to it, so a
  text character matches a pattern character when their ASCII lower cases agree.
\<close>

definition ascii_lower :: "char \<Rightarrow> char" where
  "ascii_lower c =
     (case map_of (zip ''ABCDEFGHIJKLMNOPQRSTUVWXYZ'' ''abcdefghijklmnopqrstuvwxyz'') c of
        Some l \<Rightarrow> l
      | None \<Rightarrow> c)"

text \<open>A literal of the pattern at the start of the text: the text that follows it.\<close>

fun strip_ci :: "string \<Rightarrow> string \<Rightarrow> string option" where
  "strip_ci [] t = Some t"
| "strip_ci (p # ps) [] = None"
| "strip_ci (p # ps) (c # cs) =
     (if ascii_lower c = ascii_lower p then strip_ci ps cs else None)"

text \<open>\<^verbatim>\<open>[0-9]\<close> (and \<^verbatim>\<open>\d\<close>, below code point 256) and \<^verbatim>\<open>[0-9,]\<close>\<close>

definition is_digit :: "char \<Rightarrow> bool" where
  "is_digit c = (c \<in> set ''0123456789'')"

definition is_num_char :: "char \<Rightarrow> bool" where
  "is_num_char c = (is_digit c \<or> c = CHR '','')"

text \<open>
  \<^verbatim>\<open>(metric tons|MT|tCO2e)\<close>: the alternatives are tried in the order written; the group
  is the text as it stands in the input.
\<close>

fun first_alt :: "string list \<Rightarrow> string \<Rightarrow> string option" where
  "first_alt [] t = None"
| "first_alt (a # as) t =
     (case strip_ci a t of
        Some _ \<Rightarrow> Some (take (length a) t)
      | None \<Rightarrow> first_alt as t)"

definition unit_at :: "string \<Rightarrow> string option" where
  "unit_at t =
     (case t of
        c # u \<Rightarrow> (if c = CHR '' '' then first_alt [''metric tons'', ''MT'', ''tCO2e''] u else None)
      | [] \<Rightarrow> None)"

text \<open>
  \<^verbatim>\<open>([0-9,]+) (metric tons|MT|tCO2e)\<close> at the start of \<open>t\<close>: the greedy \<^verbatim>\<open>+\<close> takes the
  longest run first and gives characters back one at a time, never fewer than one.
  \<open>try_number j t\<close> tries the runs of length \<open>j\<close>, \<open>j - 1\<close>, ..., \<open>1\<close>.
\<close>

fun try_number :: "nat \<Rightarrow> string \<Rightarrow> (string \<times> string) option" where
  "try_number 0 t = None"
| "try_number (Suc j) t =
     (case unit_at (drop (Suc j) t) of
        Some u \<Rightarrow> Some (take (Suc j) t, u)
      | None \<Rightarrow> try_number j t)"

definition number_at :: "string \<Rightarrow> (string \<times> string) option" where
  "number_at t = try_number (length (takeWhile is_num_char t)) t"

text \<open>
  \<^verbatim>\<open>(?:[^0-9]*)\<close> followed by the rest of the pattern: the greedy \<^verbatim>\<open>*\<close> takes the longest
  run of non-digits first and gives characters back one at a time, down to none.
  \<open>try_filler k t\<close> tries the fillers of length \<open>k\<close>, \<open>k - 1\<close>, ..., \<open>0\<close>.
\<close>

fun try_filler :: "nat \<Rightarrow> string \<Rightarrow> (string \<times> string) option" where
  "try_filler 0 t = number_at t"
| "try_filler (Suc k) t =
     (case number_at (drop (Suc k) t) of
        Some g \<Rightarrow> Some g
      | None \<Rightarrow> try_filler k t)"

text \<open>
  \<^verbatim>\<open>carbon emissions(?:[^0-9]*)([0-9,]+) (metric tons|MT|tCO2e)\<close> matched at the start
  of the text: groups 1 and 2 of the match the backtracking matcher finds first.
\<close>

definition carbon_match_at :: "string \<Rightarrow> (string \<times> string) option" where
  "carbon_match_at t =
     (case strip_ci ''carbon emissions'' t of
        None \<Rightarrow> None
      | Some r \<Rightarrow> try_filler (length (takeWhile (\<lambda>c. \<not> is_digit c) r)) r)"

text \<open>\<^verbatim>\<open>net-zero by (\d{4})\<close> matched at the start of the text: group 1.\<close>

definition net_zero_match_at :: "string \<Rightarrow> string option" where
  "net_zero_match_at t =
     (case strip_ci ''net-zero by '' t of
        None \<Rightarrow> None
      | Some r \<Rightarrow>
          (if 4 \<le> length r \<and> list_all is_digit (take 4 r) then Some (take 4 r) else None))"

text \<open>
  \<^verbatim>\<open>re.search\<close>: the match at the leftmost position of the text where the pattern
  matches, the end of the text included.
\<close>

fun re_search :: "(string \<Rightarrow> 'a option) \<Rightarrow> string \<Rightarrow> 'a option" where
  "re_search m [] = m []"
| "re_search m (c # cs) =
     (case m (c # cs) of
        Some g \<Rightarrow> Some g
      | None \<Rightarrow> re_search m cs)"

subsection \<open>\<^verbatim>\<open>parse_esg_data\<close>\<close>

definition parse_esg_data :: "fetched \<Rightarrow> dict" where
  "parse_esg_data content =
     (if ftype content = ''html'' then
        (let text = fcontent content;
             carbon_match = re_search carbon_match_at text;
             net_zero_match = re_search net_zero_match_at text;
             data1 = (case carbon_match of
                        Some (g1, g2) \<Rightarrow> [''carbon_emissions'' \<mapsto> PStr (g1 @ '' '' @ g2)]
                      | None \<Rightarrow> Map.empty);
             data2 = (case net_zero_match of
                        Some y \<Rightarrow> data1(''net_zero_target'' \<mapsto> PStr y)
                      | None \<Rightarrow> data1)
         in data2)
      else if ftype content = ''pdf'' then
        [''note'' \<mapsto> PStr ''PDF parsing not implemented yet'']
      else Map.empty)"

text \<open>
  As an object: \<^verbatim>\<open>data = {}\<close> makes a new dictionary on every call, and the reference
  to it is returned. The argument is only read.
\<close>

definition parse_esg_data_obj :: "store \<Rightarrow> fetched \<Rightarrow> ref \<times> store" where
  "parse_esg_data_obj s content =
     (next_ref s,
      s\<lparr>objs := (objs s)(next_ref s := parse_esg_data content),
        next_ref := Suc (next_ref s)\<rparr>)"

section \<open>Searching\<close>

text \<open>One search result: \<^verbatim>\<open>{"title": .., "link": .., "snippet": ..}\<close>.\<close>

record hit =
  title :: pyval
  link :: pyval
  snippet :: pyval

text \<open>
  The request \<^verbatim>\<open>self.service.cse().list(q=.., cx=.., num=..).execute()\<close> belongs to the
  search provider's client library: it either raises or returns the decoded response.
\<close>

type_synonym provider = "string \<Rightarrow> string \<Rightarrow> int \<Rightarrow> exn + pyval"

text \<open>\<^verbatim>\<open>v.get(k, default)\<close> on a value: only a dictionary has the method.\<close>

fun py_get :: "pyval \<Rightarrow> string \<Rightarrow> pyval \<Rightarrow> exn + pyval" where
  "py_get (PDict kvs) k dflt = Inr (case map_of kvs k of None \<Rightarrow> dflt | Some v \<Rightarrow> v)"
| "py_get _ k dflt = Inl AttributeError"

text \<open>
  \<^verbatim>\<open>for item in v\<close>: the elements of a list, the keys of a dictionary, the characters
  of a string; the other values are not iterable.
\<close>

fun py_iter :: "pyval \<Rightarrow> exn + pyval list" where
  "py_iter (PList xs) = Inr xs"
| "py_iter (PDict kvs) = Inr (map (\<lambda>kv. PStr (fst kv)) kvs)"
| "py_iter (PStr s) = Inr (map (\<lambda>c. PStr [c]) s)"
| "py_iter _ = Inl TypeError"

text \<open>The dictionary built for one item; each \<^verbatim>\<open>item.get\<close> may raise.\<close>

definition make_hit :: "pyval \<Rightarrow> exn + hit" where
  "make_hit item =
     (case py_get item ''title'' PNone of
        Inl e \<Rightarrow> Inl e
      | Inr t \<Rightarrow>
          (case py_get item ''link'' PNone of
             Inl e \<Rightarrow> Inl e
           | Inr l \<Rightarrow>
               (case py_get item ''snippet'' PNone of
                  Inl e \<Rightarrow> Inl e
                | Inr sn \<Rightarrow> Inr \<lparr>title = t, link = l, snippet = sn\<rparr>)))"

text \<open>
  The \<^verbatim>\<open>for\<close> loop of \<^verbatim>\<open>search_reports\<close>: \<open>results\<close> is the list built so far. An
  exception ends the loop and leaves \<open>results\<close> as it is.
\<close>

fun append_hits :: "pyval list \<Rightarrow> hit list \<Rightarrow> hit list \<times> exn option" where
  "append_hits [] results = (results, None)"
| "append_hits (item # items) results =
     (case make_hit item of
        Inl e \<Rightarrow> (results, Some e)
      | Inr h \<Rightarrow> append_hits items (results @ [h]))"

text \<open>
  The \<^verbatim>\<open>try\<close> block of \<^verbatim>\<open>search_reports\<close>: the value of \<^verbatim>\<open>results\<close> when the block
  is left, and the exception that ended it, if one did.
\<close>

definition search_try :: "provider \<Rightarrow> string \<Rightarrow> string \<Rightarrow> int \<Rightarrow> hit list \<times> exn option" where
  "search_try execute cse_id query num_results =
     (case execute query cse_id num_results of
        Inl e \<Rightarrow> ([], Some e)
      | Inr search_response \<Rightarrow>
          (case py_get search_response ''items'' (PList []) of
             Inl e \<Rightarrow> ([], Some e)
           | Inr v \<Rightarrow>
               (case py_iter v of
                  Inl e \<Rightarrow> ([], Some e)
                | Inr items \<Rightarrow> append_hits items [])))"

text \<open>
  \<^verbatim>\<open>search_reports\<close>: \<^verbatim>\<open>except Exception\<close> prints the exception and goes on to
  \<^verbatim>\<open>return results\<close>.
\<close>

definition search_reports :: "provider \<Rightarrow> string \<Rightarrow> string \<Rightarrow> int \<Rightarrow> hit list" where
  "search_reports execute cse_id query num_results =
     fst (search_try execute cse_id query num_results)"

text \<open>
  A value is a dictionary; these are the items \<^verbatim>\<open>item.get\<close> works on.
\<close>

fun is_dict :: "pyval \<Rightarrow> bool" where
  "is_dict (PDict kvs) = True"
| "is_dict _ = False"

text \<open>
  Two providers to run the search on: one answers every request with the response
  given, the other raises the exception given on every request.
\<close>

definition provider_returning :: "pyval \<Rightarrow> provider" where
  "provider_returning response query cse_id num_results = Inr response"

definition provider_raising :: "exn \<Rightarrow> provider" where
  "provider_raising e query cse_id num_results = Inl e"

section \<open>Fetching\<close>

text \<open>
  The HTTP response, as far as \<^verbatim>\<open>fetch_content\<close> reads it: \<open>r_headers\<close> is the header
  lookup \<^verbatim>\<open>response.headers.get\<close>, \<open>r_text\<close> and \<open>r_content\<close> are \<^verbatim>\<open>response.text\<close> and
  \<^verbatim>\<open>response.content\<close>.
\<close>

record response =
  status_code :: int
  r_headers :: "string \<rightharpoonup> string"
  r_text :: string
  r_content :: string

text \<open>
  \<^verbatim>\<open>response.raise_for_status()\<close>, by the rule of the HTTP library: it raises an
  \<^verbatim>\<open>HTTPError\<close> for the status codes 400 to 599, the client and server errors, and
  returns for every other status code.
\<close>

definition raise_for_status :: "response \<Rightarrow> exn option" where
  "raise_for_status response =
     (if 400 \<le> status_code response \<and> status_code response < 600
      then Some (RequestError ''HTTPError'') else None)"

text \<open>
  The network, the operating system and the HTML parser, over a state \<open>'w\<close> of the
  outside world: \<^verbatim>\<open>requests.get\<close>, \<^verbatim>\<open>os.makedirs(.., exist_ok=True)\<close>, writing a file
  opened with \<^verbatim>\<open>open(.., "wb")\<close>, and the texts of the \<^verbatim>\<open>p\<close> elements that
  \<^verbatim>\<open>BeautifulSoup\<close> finds. Each of them may raise.
\<close>

record 'w io =
  requests_get :: "'w \<Rightarrow> pyval \<Rightarrow> (exn + response) \<times> 'w"
  makedirs :: "'w \<Rightarrow> string \<Rightarrow> exn option \<times> 'w"
  write_file :: "'w \<Rightarrow> string \<Rightarrow> string \<Rightarrow> exn option \<times> 'w"
  find_all_p :: "string \<Rightarrow> exn + string list"

text \<open>\<^verbatim>\<open>p in s\<close> on strings: \<open>p\<close> occurs in \<open>s\<close>.\<close>

fun starts_with :: "string \<Rightarrow> string \<Rightarrow> bool" where
  "starts_with [] s = True"
| "starts_with (p # ps) [] = False"
| "starts_with (p # ps) (c # cs) = (p = c \<and> starts_with ps cs)"

fun str_in :: "string \<Rightarrow> string \<Rightarrow> bool" where
  "str_in p [] = starts_with p []"
| "str_in p (c # cs) = (starts_with p (c # cs) \<or> str_in p cs)"

text \<open>\<^verbatim>\<open>s.split(sep)\<close> for a separator of one character, and \<^verbatim>\<open>sep.join(xs)\<close>.\<close>

fun split_on :: "char \<Rightarrow> string \<Rightarrow> string list" where
  "split_on sep [] = [] # []"
| "split_on sep (c # cs) =
     (if c = sep then [] # split_on sep cs
      else (case split_on sep cs of
              [] \<Rightarrow> [c] # []
            | x # xs \<Rightarrow> (c # x) # xs))"

fun str_join :: "string \<Rightarrow> string list \<Rightarrow> string" where
  "str_join sep [] = []"
| "str_join sep [x] = x"
| "str_join sep (x # y # ys) = x @ sep @ str_join sep (y # ys)"

text \<open>\<^verbatim>\<open>response.headers.get("Content-Type", "")\<close>\<close>

definition content_type :: "response \<Rightarrow> string" where
  "content_type response =
     (case r_headers response ''Content-Type'' of None \<Rightarrow> [] | Some v \<Rightarrow> v)"

text \<open>
  \<^verbatim>\<open>fetch_content\<close>. Every exception inside the \<^verbatim>\<open>try\<close> block is caught and makes the
  result \<^verbatim>\<open>None\<close>; \<^verbatim>\<open>url.split\<close> raises when \<open>url\<close> is not a string.
\<close>

definition fetch_content :: "'w io \<Rightarrow> 'w \<Rightarrow> pyval \<Rightarrow> fetched option \<times> 'w" where
  "fetch_content io w url =
     (case requests_get io w url of
        (Inl e, w1) \<Rightarrow> (None, w1)
      | (Inr response, w1) \<Rightarrow>
          (case raise_for_status response of
             Some e \<Rightarrow> (None, w1)
           | None \<Rightarrow>
               if str_in ''application/pdf'' (content_type response) then
                 (case makedirs io w1 ''downloads'' of
                    (Some e, w2) \<Rightarrow> (None, w2)
                  | (None, w2) \<Rightarrow>
                      (case url of
                         PStr u \<Rightarrow>
                           (let pdf_name = ''downloads/'' @ last (split_on CHR ''/'' u) in
                            case write_file io w2 pdf_name (r_content response) of
                              (Some e, w3) \<Rightarrow> (None, w3)
                            | (None, w3) \<Rightarrow>
                                (Some \<lparr>ftype = ''pdf'', fcontent = pdf_name\<rparr>, w3))
                       | _ \<Rightarrow> (None, w2)))
               else
                 (case find_all_p io (r_text response) of
                    Inl e \<Rightarrow> (None, w1)
                  | Inr ps \<Rightarrow>
                      (Some \<lparr>ftype = ''html'', fcontent = str_join '' '' ps\<rparr>, w1))))"

text \<open>
  An outside world to run the fetcher in. It has no state, answers requests as the
  function given says, creates every directory, writes every file, and finds one
  paragraph, the whole text.
\<close>

definition static_io :: "(pyval \<Rightarrow> exn + response) \<Rightarrow> unit io" where
  "static_io get =
     \<lparr>requests_get = (\<lambda>w url. (get url, w)),
      makedirs = (\<lambda>w path. (None, w)),
      write_file = (\<lambda>w path bytes. (None, w)),
      find_all_p = (\<lambda>html. Inr [html])\<rparr>"

text \<open>
  Three documents: a page that states both figures, an address that answers 404, and a
  PDF file. Every other request fails to connect.
\<close>

definition three_documents :: "pyval \<Rightarrow> exn + response" where
  "three_documents url =
     (if url = PStr ''http://a.example/esg'' then
        Inr \<lparr>status_code = 200,
             r_headers = [''Content-Type'' \<mapsto> ''text/html; charset=utf-8''],
             r_text = ''Our carbon emissions were 1,234 tCO2e. We aim to be net-zero by 2045.'',
             r_content = []\<rparr>
      else if url = PStr ''http://b.example/gone'' then
        Inr \<lparr>status_code = 404,
             r_headers = [''Content-Type'' \<mapsto> ''text/html''],
             r_text = ''Not Found'',
             r_content = []\<rparr>
      else if url = PStr ''http://c.example/files/report.pdf'' then
        Inr \<lparr>status_code = 200,
             r_headers = [''Content-Type'' \<mapsto> ''application/pdf''],
             r_text = [],
             r_content = ''%PDF-1.7''\<rparr>
      else Inl (RequestError ''ConnectionError''))"


section \<open>Processing the search results\<close>

text \<open>
  \<^verbatim>\<open>validated_data.update({"source": result["link"], "title": result["title"],
  "snippet": result["snippet"]})\<close>
\<close>

definition update_source :: "dict \<Rightarrow> hit \<Rightarrow> dict" where
  "update_source validated_data result =
     validated_data(''source'' \<mapsto> link result,
                    ''title'' \<mapsto> title result,
                    ''snippet'' \<mapsto> snippet result)"

text \<open>
  The loop of \<^verbatim>\<open>process_search_results\<close>; \<open>processed_data\<close> is the list built so far.
  The progress line it prints is left out. An exception of \<^verbatim>\<open>validate_data\<close> is not
  caught here and ends the run.
\<close>

fun process_loop ::
  "'w io \<Rightarrow> 'w \<Rightarrow> hit list \<Rightarrow> dict list \<Rightarrow> (exn + dict list) \<times> 'w" where
  "process_loop io w [] processed_data = (Inr processed_data, w)"
| "process_loop io w (result # results) processed_data =
     (case fetch_content io w (link result) of
        (None, w1) \<Rightarrow> process_loop io w1 results processed_data
      | (Some content, w1) \<Rightarrow>
          (case validate_data (parse_esg_data content) of
             Inl e \<Rightarrow> (Inl e, w1)
           | Inr validated_data \<Rightarrow>
               process_loop io w1 results
                 (processed_data @ [update_source validated_data result])))"

definition process_search_results ::
  "'w io \<Rightarrow> 'w \<Rightarrow> hit list \<Rightarrow> (exn + dict list) \<times> 'w" where
  "process_search_results io w results = process_loop io w results []"

text \<open>
  The hits for which \<^verbatim>\<open>fetch_content\<close> returns content when they are fetched one after
  the other from the state \<open>w\<close>, each with the content fetched.
\<close>

fun fetched_hits :: "'w io \<Rightarrow> 'w \<Rightarrow> hit list \<Rightarrow> (hit \<times> fetched) list" where
  "fetched_hits io w [] = []"
| "fetched_hits io w (h # hs) =
     (case fetch_content io w (link h) of
        (None, w1) \<Rightarrow> fetched_hits io w1 hs
      | (Some c, w1) \<Rightarrow> (h, c) # fetched_hits io w1 hs)"

section \<open>What the validator does\<close>

lemma append_error_None:
  "d ''error'' = None \<Longrightarrow> append_error d m = Inr (d(''error'' \<mapsto> PList [PStr m]))"
  by (simp add: append_error_def dict_get_def)

lemma append_error_list:
  "d ''error'' = Some (PList xs) \<Longrightarrow>
     append_error d m = Inr (d(''error'' \<mapsto> PList (xs @ [PStr m])))"
  by (simp add: append_error_def dict_get_def)

lemma append_error_other:
  "d ''error'' = Some v \<Longrightarrow> (\<forall>xs. v \<noteq> PList xs) \<Longrightarrow> append_error d m = Inl TypeError"
  by (cases v) (simp_all add: append_error_def dict_get_def)

lemma validate_data_complete:
  "d ''carbon_emissions'' \<noteq> None \<Longrightarrow> d ''net_zero_target'' \<noteq> None \<Longrightarrow> validate_data d = Inr d"
  by (auto simp: validate_data_def)

lemma validate_data_None:
  assumes "d ''error'' = None" and "missing_messages d \<noteq> []"
  shows "validate_data d = Inr (d(''error'' \<mapsto> PList (missing_messages d)))"
  using assms
  by (auto simp: validate_data_def missing_messages_def append_error_None append_error_list
           split: if_splits)

lemma validate_data_list:
  assumes "d ''error'' = Some (PList xs)" and "missing_messages d \<noteq> []"
  shows "validate_data d = Inr (d(''error'' \<mapsto> PList (xs @ missing_messages d)))"
  using assms
  by (auto simp: validate_data_def missing_messages_def append_error_None append_error_list
           split: if_splits)

lemma validate_data_raises:
  assumes "d ''error'' = Some v" and "\<forall>xs. v \<noteq> PList xs" and "missing_messages d \<noteq> []"
  shows "validate_data d = Inl TypeError"
  using assms
  by (auto simp: validate_data_def missing_messages_def append_error_other
           split: if_splits)


lemma py_add_list_Inr:
  "py_add_list v ys = Inr x \<Longrightarrow> \<exists>xs. v = PList xs \<and> x = PList (xs @ ys)"
  by (cases v) auto

lemma store_set_same: "store_set s r (objs s r) = s"
  by (simp add: store_set_def)

lemma store_set_twice: "store_set (store_set s r d1) r d2 = store_set s r d2"
  by (simp add: store_set_def)

lemma objs_store_set: "objs (store_set s r d) q = (if q = r then d else objs s q)"
  by (simp add: store_set_def)

lemma validate_data_obj_eq:
  "validate_data_obj s r =
     (case validate_data (objs s r) of
        Inl e \<Rightarrow> (Inl e, s)
      | Inr d \<Rightarrow> (Inr r, store_set s r d))"
proof (cases "objs s r ''carbon_emissions'' = None")
  case True
  show ?thesis
  proof (cases "append_error (objs s r) msg_carbon")
    case (Inl e)
    with True show ?thesis by (simp add: validate_data_obj_def validate_data_def)
  next
    case (Inr d1)
    with True show ?thesis
      by (cases "append_error d1 msg_net_zero")
         (auto simp: validate_data_obj_def validate_data_def Let_def objs_store_set
            store_set_twice append_error_def dict_get_def
            dest!: py_add_list_Inr split: sum.splits if_splits)
  qed
next
  case False
  then show ?thesis
    by (auto simp: validate_data_obj_def validate_data_def Let_def objs_store_set
          store_set_same store_set_twice split: sum.splits)
qed

text \<open>
  Claim C1. An extracted mapping holds only what the extractor stored, so it has no
  \<^verbatim>\<open>error\<close> entry yet. For every such mapping that has neither \<^verbatim>\<open>carbon_emissions\<close> nor
  \<^verbatim>\<open>net_zero_target\<close> (the empty mapping is one), \<^verbatim>\<open>validate_data\<close> returns the mapping
  with the error list set to exactly the two messages, the one for the carbon emissions
  first: one message is appended for each missing field.
\<close>

theorem validate_missing_both:
  assumes "d ''carbon_emissions'' = None" and "d ''net_zero_target'' = None"
    and "d ''error'' = None"
  shows "validate_data d =
     Inr (d(''error'' \<mapsto> PList [PStr ''Missing carbon emissions data'',
                                  PStr ''Missing net-zero target'']))"
  using assms validate_data_None [of d]
  by (simp add: missing_messages_def msg_carbon_def msg_net_zero_def)

theorem validate_missing_both_witness:
  "Map.empty ''carbon_emissions'' = None \<and> Map.empty ''net_zero_target'' = None
   \<and> Map.empty ''error'' = None
   \<and> validate_data Map.empty =
     Inr [''error'' \<mapsto> PList [PStr ''Missing carbon emissions data'',
                               PStr ''Missing net-zero target'']]"
  using validate_missing_both [of Map.empty] by simp


lemma missing_messages_upd_error [simp]:
  "missing_messages (d(''error'' \<mapsto> v)) = missing_messages d"
  by (simp add: missing_messages_def)

lemma validate_data_Inr:
  assumes "validate_data d = Inr d1" and "missing_messages d \<noteq> []"
  shows "\<exists>xs. (d ''error'' = None \<and> xs = [] \<or> d ''error'' = Some (PList xs))
            \<and> d1 = d(''error'' \<mapsto> PList (xs @ missing_messages d))"
proof (cases "d ''error''")
  case None
  with assms show ?thesis by (simp add: validate_data_None)
next
  case (Some v)
  show ?thesis
  proof (cases "\<exists>xs. v = PList xs")
    case True
    with Some assms show ?thesis by (auto simp: validate_data_list)
  next
    case False
    with Some assms show ?thesis by (simp add: validate_data_raises)
  qed
qed

text \<open>
  Claim C9, amended. Whenever \<^verbatim>\<open>validate_data\<close> returns, it returns the reference it was
  given. No other object of the store changes and no object is created. In the
  dictionary itself no key is removed, no key other than \<^verbatim>\<open>error\<close> changes its value,
  and \<^verbatim>\<open>error\<close> is the only key that can be new. When both fields are present nothing
  changes at all; when a field is missing, the value of \<^verbatim>\<open>error\<close> becomes the list it
  held before (the empty list when the key was absent) followed by the messages for the
  missing fields.
\<close>

theorem validate_frame:
  assumes "validate_data_obj s r = (Inr r', s')"
  shows "r' = r
     \<and> (\<forall>q. q \<noteq> r \<longrightarrow> objs s' q = objs s q)
     \<and> next_ref s' = next_ref s
     \<and> (\<forall>k. k \<noteq> ''error'' \<longrightarrow> objs s' r k = objs s r k)
     \<and> dom (objs s r) \<subseteq> dom (objs s' r)
     \<and> dom (objs s' r) \<subseteq> insert ''error'' (dom (objs s r))
     \<and> (objs s r ''carbon_emissions'' \<noteq> None \<and> objs s r ''net_zero_target'' \<noteq> None
          \<longrightarrow> s' = s)
     \<and> (objs s r ''carbon_emissions'' = None \<or> objs s r ''net_zero_target'' = None
          \<longrightarrow> (\<exists>xs. (objs s r ''error'' = None \<and> xs = []
                       \<or> objs s r ''error'' = Some (PList xs))
                  \<and> objs s' r ''error''
                      = Some (PList (xs @ missing_messages (objs s r)))))"
proof -
  from assms obtain d' where v: "validate_data (objs s r) = Inr d'"
    and r': "r' = r" and s': "s' = store_set s r d'"
    by (auto simp: validate_data_obj_eq split: sum.splits)
  show ?thesis
  proof (cases "missing_messages (objs s r) = []")
    case True
    then have full: "objs s r ''carbon_emissions'' \<noteq> None"
      "objs s r ''net_zero_target'' \<noteq> None"
      by (auto simp: missing_messages_def split: if_splits)
    with v have "d' = objs s r" by (simp add: validate_data_complete)
    with s' have "s' = s" by (simp add: store_set_same)
    with r' full show ?thesis by auto
  next
    case False
    from validate_data_Inr [OF v False] obtain xs where
      xs: "objs s r ''error'' = None \<and> xs = [] \<or> objs s r ''error'' = Some (PList xs)"
      and d': "d' = (objs s r)(''error'' \<mapsto> PList (xs @ missing_messages (objs s r)))"
      by blast
    from False have miss:
      "objs s r ''carbon_emissions'' = None \<or> objs s r ''net_zero_target'' = None"
      by (auto simp: missing_messages_def split: if_splits)
    have "objs s' r ''error'' = Some (PList (xs @ missing_messages (objs s r)))"
      by (simp add: s' d' objs_store_set)
    moreover have "\<forall>q. q \<noteq> r \<longrightarrow> objs s' q = objs s q"
      by (simp add: s' objs_store_set)
    moreover have "next_ref s' = next_ref s" by (simp add: s' store_set_def)
    moreover have "\<forall>k. k \<noteq> ''error'' \<longrightarrow> objs s' r k = objs s r k"
      by (simp add: s' d' objs_store_set)
    moreover have "dom (objs s r) \<subseteq> dom (objs s' r)"
      by (auto simp: s' d' objs_store_set)
    moreover have "dom (objs s' r) \<subseteq> insert ''error'' (dom (objs s r))"
      by (auto simp: s' d' objs_store_set)
    ultimately show ?thesis using r' xs miss by auto
  qed
qed


lemma objs_one_dict: "objs (one_dict d) 0 = d"
  by (simp add: one_dict_def)

theorem validate_frame_witness:
  "validate_data_obj (one_dict [''note'' \<mapsto> PStr ''PDF parsing not implemented yet'']) 0
     = (Inr 0, one_dict [''note'' \<mapsto> PStr ''PDF parsing not implemented yet'',
                         ''error'' \<mapsto> PList [PStr ''Missing carbon emissions data'',
                                               PStr ''Missing net-zero target'']])
   \<and> objs (one_dict [''note'' \<mapsto> PStr ''PDF parsing not implemented yet'',
                     ''error'' \<mapsto> PList [PStr ''Missing carbon emissions data'',
                                           PStr ''Missing net-zero target'']]) 0 ''note''
     = objs (one_dict [''note'' \<mapsto> PStr ''PDF parsing not implemented yet'']) 0 ''note''"
proof -
  let ?d = "[''note'' \<mapsto> PStr ''PDF parsing not implemented yet'']"
  let ?d' = "[''note'' \<mapsto> PStr ''PDF parsing not implemented yet'',
              ''error'' \<mapsto> PList [PStr ''Missing carbon emissions data'',
                                    PStr ''Missing net-zero target'']]"
  have run: "validate_data_obj (one_dict ?d) 0 = (Inr 0, one_dict ?d')"
    by (simp add: validate_data_obj_eq validate_data_None missing_messages_def
          msg_carbon_def msg_net_zero_def one_dict_def store_set_def)
  from validate_frame [OF run] have "objs (one_dict ?d') 0 ''note'' = objs (one_dict ?d) 0 ''note''"
    by simp
  with run show ?thesis by simp
qed

text \<open>
  Claim C9 as stated fails on a mapping that already has the key \<^verbatim>\<open>error\<close>: validating
  the result of an earlier validation changes the value of that key, which was present
  before the call. When the key holds something that is not a list and a field is
  missing, the call raises \<^verbatim>\<open>TypeError\<close> and returns nothing.
\<close>

theorem validate_frame_counterexample:
  "fst (validate_data_obj
          (one_dict [''error'' \<mapsto> PList [PStr ''Missing carbon emissions data'',
                                           PStr ''Missing net-zero target'']]) 0) = Inr 0
   \<and> objs (one_dict [''error'' \<mapsto> PList [PStr ''Missing carbon emissions data'',
                                          PStr ''Missing net-zero target'']]) 0 ''error''
       = Some (PList [PStr ''Missing carbon emissions data'', PStr ''Missing net-zero target''])
   \<and> objs (snd (validate_data_obj
          (one_dict [''error'' \<mapsto> PList [PStr ''Missing carbon emissions data'',
                                           PStr ''Missing net-zero target'']]) 0)) 0 ''error''
       = Some (PList [PStr ''Missing carbon emissions data'', PStr ''Missing net-zero target'',
                      PStr ''Missing carbon emissions data'', PStr ''Missing net-zero target''])
   \<and> fst (validate_data_obj (one_dict [''error'' \<mapsto> PStr ''none'']) 0) = Inl TypeError"
  by (simp add: validate_data_obj_eq validate_data_list validate_data_raises
        missing_messages_def msg_carbon_def msg_net_zero_def one_dict_def store_set_def)

text \<open>
  Claim C10. Let \<^verbatim>\<open>validate_data\<close> have returned for a mapping that lacks
  \<^verbatim>\<open>carbon_emissions\<close> or \<^verbatim>\<open>net_zero_target\<close>. Applied to the validated mapping, it
  returns again, and what it returns differs from the validated mapping: the error list
  is the previous one with further messages appended, among them the message of each
  missing field, which the list held at least once already and now holds once more
  often; when the first mapping had no error list, it now holds the message exactly
  twice.
\<close>

theorem validate_twice:
  assumes "validate_data d = Inr d1"
    and "d ''carbon_emissions'' = None \<or> d ''net_zero_target'' = None"
  shows "\<exists>es1 ys d2.
           d1 ''error'' = Some (PList es1)
         \<and> validate_data d1 = Inr d2
         \<and> d2 ''error'' = Some (PList (es1 @ ys))
         \<and> d2 \<noteq> d1
         \<and> (d ''carbon_emissions'' = None \<longrightarrow>
               PStr ''Missing carbon emissions data'' \<in> set ys
             \<and> 1 \<le> count_list es1 (PStr ''Missing carbon emissions data'')
             \<and> count_list (es1 @ ys) (PStr ''Missing carbon emissions data'')
                 = count_list es1 (PStr ''Missing carbon emissions data'') + 1
             \<and> (d ''error'' = None \<longrightarrow>
                   count_list (es1 @ ys) (PStr ''Missing carbon emissions data'') = 2))
         \<and> (d ''net_zero_target'' = None \<longrightarrow>
               PStr ''Missing net-zero target'' \<in> set ys
             \<and> 1 \<le> count_list es1 (PStr ''Missing net-zero target'')
             \<and> count_list (es1 @ ys) (PStr ''Missing net-zero target'')
                 = count_list es1 (PStr ''Missing net-zero target'') + 1
             \<and> (d ''error'' = None \<longrightarrow>
                   count_list (es1 @ ys) (PStr ''Missing net-zero target'') = 2))"
proof -
  let ?ms = "missing_messages d"
  from assms(2) have ne: "?ms \<noteq> []" by (auto simp: missing_messages_def)
  from validate_data_Inr [OF assms(1) ne] obtain xs where
    xs: "d ''error'' = None \<and> xs = [] \<or> d ''error'' = Some (PList xs)"
    and d1: "d1 = d(''error'' \<mapsto> PList (xs @ ?ms))"
    by blast
  have e1: "d1 ''error'' = Some (PList (xs @ ?ms))" by (simp add: d1)
  have ms1: "missing_messages d1 = ?ms" by (simp add: d1)
  have v2: "validate_data d1 = Inr (d1(''error'' \<mapsto> PList ((xs @ ?ms) @ ?ms)))"
    using validate_data_list [of d1 "xs @ ?ms"] e1 ne ms1 by simp
  have neq: "d1(''error'' \<mapsto> PList ((xs @ ?ms) @ ?ms)) \<noteq> d1"
  proof
    assume "d1(''error'' \<mapsto> PList ((xs @ ?ms) @ ?ms)) = d1"
    then have "(d1(''error'' \<mapsto> PList ((xs @ ?ms) @ ?ms))) ''error'' = d1 ''error''" by simp
    with e1 ne show False by simp
  qed
  have c: "d ''carbon_emissions'' = None \<Longrightarrow>
             PStr ''Missing carbon emissions data'' \<in> set ?ms
           \<and> count_list ?ms (PStr ''Missing carbon emissions data'') = 1"
    by (simp add: missing_messages_def msg_carbon_def msg_net_zero_def)
  have n: "d ''net_zero_target'' = None \<Longrightarrow>
             PStr ''Missing net-zero target'' \<in> set ?ms
           \<and> count_list ?ms (PStr ''Missing net-zero target'') = 1"
    by (simp add: missing_messages_def msg_carbon_def msg_net_zero_def)
  have A: "d1 ''error'' = Some (PList (xs @ ?ms))
      \<and> validate_data d1 = Inr (d1(''error'' \<mapsto> PList ((xs @ ?ms) @ ?ms)))
      \<and> (d1(''error'' \<mapsto> PList ((xs @ ?ms) @ ?ms))) ''error'' = Some (PList ((xs @ ?ms) @ ?ms))
      \<and> d1(''error'' \<mapsto> PList ((xs @ ?ms) @ ?ms)) \<noteq> d1"
    using e1 v2 neq by simp
  have C: "d ''carbon_emissions'' = None \<longrightarrow>
               PStr ''Missing carbon emissions data'' \<in> set ?ms
             \<and> 1 \<le> count_list (xs @ ?ms) (PStr ''Missing carbon emissions data'')
             \<and> count_list ((xs @ ?ms) @ ?ms) (PStr ''Missing carbon emissions data'')
                 = count_list (xs @ ?ms) (PStr ''Missing carbon emissions data'') + 1
             \<and> (d ''error'' = None \<longrightarrow>
                   count_list ((xs @ ?ms) @ ?ms) (PStr ''Missing carbon emissions data'') = 2)"
    using c xs by auto
  have N: "d ''net_zero_target'' = None \<longrightarrow>
               PStr ''Missing net-zero target'' \<in> set ?ms
             \<and> 1 \<le> count_list (xs @ ?ms) (PStr ''Missing net-zero target'')
             \<and> count_list ((xs @ ?ms) @ ?ms) (PStr ''Missing net-zero target'')
                 = count_list (xs @ ?ms) (PStr ''Missing net-zero target'') + 1
             \<and> (d ''error'' = None \<longrightarrow>
                   count_list ((xs @ ?ms) @ ?ms) (PStr ''Missing net-zero target'') = 2)"
    using n xs by auto
  note all = conjI [OF A conjI [OF C N]]
  show ?thesis
    apply (rule exI [of _ "xs @ ?ms"])
    apply (rule exI [of _ "?ms"])
    apply (rule exI [of _ "d1(''error'' \<mapsto> PList ((xs @ ?ms) @ ?ms))"])
    apply (rule all [unfolded conj_assoc])
    done
qed

theorem validate_twice_witness:
  "validate_data Map.empty
     = Inr [''error'' \<mapsto> PList [PStr ''Missing carbon emissions data'',
                                 PStr ''Missing net-zero target'']]
   \<and> (\<exists>es2 d2.
          validate_data [''error'' \<mapsto> PList [PStr ''Missing carbon emissions data'',
                                               PStr ''Missing net-zero target'']] = Inr d2
        \<and> d2 ''error'' = Some (PList es2)
        \<and> count_list es2 (PStr ''Missing carbon emissions data'') = 2
        \<and> count_list es2 (PStr ''Missing net-zero target'') = 2)"
proof -
  let ?d1 = "[''error'' \<mapsto> PList [PStr ''Missing carbon emissions data'',
                                    PStr ''Missing net-zero target'']]"
  have h1: "validate_data Map.empty = Inr ?d1"
    by (simp add: validate_data_None missing_messages_def msg_carbon_def msg_net_zero_def)
  have h2: "Map.empty ''carbon_emissions'' = None \<or> Map.empty ''net_zero_target'' = None"
    by simp
  from validate_twice [OF h1 h2] h1 show ?thesis by auto
qed

section \<open>What the extractor does\<close>

lemma parse_esg_data_pdf:
  "ftype c = ''pdf'' \<Longrightarrow>
     parse_esg_data c = [''note'' \<mapsto> PStr ''PDF parsing not implemented yet'']"
  by (simp add: parse_esg_data_def)

lemma parse_esg_data_no_error: "parse_esg_data c ''error'' = None"
  by (simp add: parse_esg_data_def Let_def split: option.splits prod.splits)

text \<open>
  Claim C5. For content of type \<^verbatim>\<open>pdf\<close>, whatever its payload, \<^verbatim>\<open>parse_esg_data\<close> returns
  the mapping whose only key is \<^verbatim>\<open>note\<close>, with the value
  \<^verbatim>\<open>PDF parsing not implemented yet\<close>; \<^verbatim>\<open>validate_data\<close> on that result keeps the note and
  adds the error list with both messages.
\<close>

theorem pdf_note_and_errors:
  assumes "ftype c = ''pdf''"
  shows "parse_esg_data c = [''note'' \<mapsto> PStr ''PDF parsing not implemented yet'']
       \<and> validate_data (parse_esg_data c)
           = Inr [''note'' \<mapsto> PStr ''PDF parsing not implemented yet'',
                  ''error'' \<mapsto> PList [PStr ''Missing carbon emissions data'',
                                        PStr ''Missing net-zero target'']]"
  using assms
  by (simp add: parse_esg_data_pdf validate_data_None missing_messages_def
        msg_carbon_def msg_net_zero_def)

theorem pdf_note_and_errors_witness:
  "ftype \<lparr>ftype = ''pdf'', fcontent = ''downloads/report.pdf''\<rparr> = ''pdf''
   \<and> parse_esg_data \<lparr>ftype = ''pdf'', fcontent = ''downloads/report.pdf''\<rparr>
       = [''note'' \<mapsto> PStr ''PDF parsing not implemented yet'']
   \<and> validate_data (parse_esg_data \<lparr>ftype = ''pdf'', fcontent = ''downloads/report.pdf''\<rparr>)
       = Inr [''note'' \<mapsto> PStr ''PDF parsing not implemented yet'',
              ''error'' \<mapsto> PList [PStr ''Missing carbon emissions data'',
                                    PStr ''Missing net-zero target'']]"
proof -
  have h: "ftype \<lparr>ftype = ''pdf'', fcontent = ''downloads/report.pdf''\<rparr> = ''pdf''"
    by simp
  from pdf_note_and_errors [OF h] h show ?thesis by blast
qed

lemma re_search_hit: "m t = Some g \<Longrightarrow> re_search m t = Some g"
  by (cases t) simp_all

lemma re_search_skip:
  "(\<forall>i<length pre. m (drop i (pre @ t)) = None) \<Longrightarrow> re_search m (pre @ t) = re_search m t"
proof (induction pre)
  case Nil
  show ?case by simp
next
  case (Cons a pre)
  from Cons.prems have here: "m (a # pre @ t) = None" by force
  have "\<forall>i<length pre. m (drop i (pre @ t)) = None"
  proof (intro allI impI)
    fix i assume "i < length pre"
    then have "Suc i < length (a # pre)" by simp
    with Cons.prems have "m (drop (Suc i) ((a # pre) @ t)) = None" by blast
    then show "m (drop i (pre @ t)) = None" by simp
  qed
  with Cons.IH have "re_search m (pre @ t) = re_search m t" .
  with here show ?case by simp
qed

lemma carbon_phrase:
  "carbon_match_at (''carbon emissions skyrocketed to 1,234 metric tons'' @ suf)
     = Some (''1,234'', ''metric tons'')"
  by (simp add: carbon_match_at_def is_digit_def is_num_char_def number_at_def unit_at_def
        ascii_lower_def)

lemma parse_esg_data_carbon:
  "ftype c = ''html'' \<Longrightarrow>
     parse_esg_data c ''carbon_emissions''
       = (case re_search carbon_match_at (fcontent c) of
            None \<Rightarrow> None
          | Some (g1, g2) \<Rightarrow> Some (PStr (g1 @ '' '' @ g2)))"
  by (simp add: parse_esg_data_def Let_def split: option.splits prod.splits)

text \<open>
  Claim C7, amended. Let the payload of an \<^verbatim>\<open>html\<close> content contain the phrase
  \<^verbatim>\<open>carbon emissions skyrocketed to 1,234 metric tons\<close>, and let the pattern match at no
  position before the phrase. Then the phrase is the leftmost match, whatever follows it,
  and \<^verbatim>\<open>carbon_emissions\<close> is \<^verbatim>\<open>1,234 metric tons\<close>: the number and the unit as they stand
  in the text, joined by one space.
\<close>

theorem carbon_phrase_extracted:
  assumes "ftype c = ''html''"
    and "fcontent c = pre @ ''carbon emissions skyrocketed to 1,234 metric tons'' @ suf"
    and "\<forall>i<length pre. carbon_match_at (drop i (fcontent c)) = None"
  shows "parse_esg_data c ''carbon_emissions'' = Some (PStr ''1,234 metric tons'')"
proof -
  let ?t = "''carbon emissions skyrocketed to 1,234 metric tons'' @ suf"
  from assms(2,3) have "re_search carbon_match_at (pre @ ?t) = re_search carbon_match_at ?t"
    by (intro re_search_skip) simp
  also have "\<dots> = Some (''1,234'', ''metric tons'')"
    by (rule re_search_hit) (rule carbon_phrase)
  finally show ?thesis using assms(1,2) by (simp add: parse_esg_data_carbon)
qed

theorem carbon_phrase_extracted_witness:
  "parse_esg_data
     \<lparr>ftype = ''html'',
      fcontent = ''Scope 1 carbon emissions skyrocketed to 1,234 metric tons in 2023.''\<rparr>
     ''carbon_emissions'' = Some (PStr ''1,234 metric tons'')"
proof -
  let ?c = "\<lparr>ftype = ''html'',
      fcontent = ''Scope 1 carbon emissions skyrocketed to 1,234 metric tons in 2023.''\<rparr>"
  have h1: "ftype ?c = ''html''" by simp
  have h2: "fcontent ?c = ''Scope 1 '' @ ''carbon emissions skyrocketed to 1,234 metric tons''
              @ '' in 2023.''" by simp
  have h3: "\<forall>i<length ''Scope 1 ''. carbon_match_at (drop i (fcontent ?c)) = None"
    by (simp add: All_less_Suc carbon_match_at_def ascii_lower_def)
  from carbon_phrase_extracted [OF h1 h2 h3] show ?thesis .
qed

text \<open>
  Claim C7 as stated fails when the pattern matches before the phrase: only the leftmost
  match is stored, so a payload that contains the phrase after an earlier mention yields
  the earlier figure.
\<close>

theorem carbon_phrase_counterexample:
  "str_in ''carbon emissions skyrocketed to 1,234 metric tons''
     ''carbon emissions fell to 7 MT; before that, carbon emissions skyrocketed to 1,234 metric tons''
   \<and> parse_esg_data
       \<lparr>ftype = ''html'',
        fcontent = ''carbon emissions fell to 7 MT; before that, carbon emissions skyrocketed to 1,234 metric tons''\<rparr>
       ''carbon_emissions'' = Some (PStr ''7 MT'')"
  by (simp add: parse_esg_data_carbon carbon_match_at_def is_digit_def is_num_char_def
        number_at_def unit_at_def ascii_lower_def)

text \<open>
  Claim C8. \<^verbatim>\<open>parse_esg_data\<close> reads nothing but its argument and leaves it as it is. Two
  calls on the same content, one after the other from any store, return two different
  dictionaries with identical contents, the contents being a function of the content
  given; the second call does not disturb the result of the first.
\<close>

theorem parse_twice_identical:
  assumes "parse_esg_data_obj s c = (r1, s1)" and "parse_esg_data_obj s1 c = (r2, s2)"
  shows "objs s1 r1 = parse_esg_data c \<and> objs s2 r2 = objs s1 r1
       \<and> objs s2 r1 = objs s1 r1 \<and> r2 \<noteq> r1"
  using assms by (auto simp: parse_esg_data_obj_def)

theorem parse_twice_identical_witness:
  "objs (snd (parse_esg_data_obj
               (snd (parse_esg_data_obj (one_dict Map.empty)
                       \<lparr>ftype = ''html'', fcontent = ''net-zero by 2045''\<rparr>))
               \<lparr>ftype = ''html'', fcontent = ''net-zero by 2045''\<rparr>)) 2
     = objs (snd (parse_esg_data_obj (one_dict Map.empty)
                    \<lparr>ftype = ''html'', fcontent = ''net-zero by 2045''\<rparr>)) 1"
proof -
  let ?c = "\<lparr>ftype = ''html'', fcontent = ''net-zero by 2045''\<rparr>"
  let ?s1 = "snd (parse_esg_data_obj (one_dict Map.empty) ?c)"
  let ?s2 = "snd (parse_esg_data_obj ?s1 ?c)"
  have a: "parse_esg_data_obj (one_dict Map.empty) ?c = (1, ?s1)"
    by (simp add: parse_esg_data_obj_def one_dict_def)
  have b: "parse_esg_data_obj ?s1 ?c = (2, ?s2)"
    by (simp add: parse_esg_data_obj_def one_dict_def)
  from parse_twice_identical [OF a b] show ?thesis by simp
qed

section \<open>What the search does\<close>

lemma make_hit_dict:
  "make_hit (PDict kvs) =
     Inr \<lparr>title = (case map_of kvs ''title'' of None \<Rightarrow> PNone | Some v \<Rightarrow> v),
          link = (case map_of kvs ''link'' of None \<Rightarrow> PNone | Some v \<Rightarrow> v),
          snippet = (case map_of kvs ''snippet'' of None \<Rightarrow> PNone | Some v \<Rightarrow> v)\<rparr>"
  by (simp add: make_hit_def)

lemma make_hit_isl: "isl (make_hit item) = (\<not> is_dict item)"
  by (cases item) (simp_all add: make_hit_def)

lemma make_hit_Inl: "make_hit item = Inl e \<Longrightarrow> e = AttributeError \<and> \<not> is_dict item"
  by (cases item) (simp_all add: make_hit_def)

lemma append_hits_acc:
  "append_hits items results
     = (results @ map (\<lambda>it. projr (make_hit it)) (takeWhile is_dict items),
        if list_all is_dict items then None else Some AttributeError)"
proof (induction items arbitrary: results)
  case Nil
  show ?case by simp
next
  case (Cons item items)
  show ?case
  proof (cases "make_hit item")
    case (Inl e)
    then show ?thesis using make_hit_Inl [OF Inl] by simp
  next
    case (Inr h)
    then have "is_dict item" using make_hit_isl [of item] by simp
    with Inr show ?thesis by (simp add: Cons.IH)
  qed
qed

lemma takeWhile_is_dict_strings:
  "takeWhile is_dict (map (\<lambda>c. PStr (f c)) xs) = []"
  by (cases xs) simp_all

lemma list_all_is_dict_strings:
  "list_all is_dict (map (\<lambda>c. PStr (f c)) xs) = (xs = [])"
  by (cases xs) simp_all

lemma search_try_items:
  assumes "execute query cse_id num_results = Inr (PDict kvs)"
    and "map_of kvs ''items'' = Some (PList items)"
  shows "search_try execute cse_id query num_results
           = (map (\<lambda>it. projr (make_hit it)) (takeWhile is_dict items),
              if list_all is_dict items then None else Some AttributeError)"
  using assms by (simp add: search_try_def append_hits_acc)

lemma search_try_nonempty:
  assumes "search_try execute cse_id query num_results = (results, x)" and "results \<noteq> []"
  shows "\<exists>kvs items. execute query cse_id num_results = Inr (PDict kvs)
           \<and> map_of kvs ''items'' = Some (PList items)"
proof (cases "execute query cse_id num_results")
  case (Inl e)
  with assms show ?thesis by (simp add: search_try_def)
next
  case (Inr resp)
  show ?thesis
  proof (cases resp)
    case (PDict kvs)
    show ?thesis
    proof (cases "map_of kvs ''items''")
      case None
      with Inr PDict assms show ?thesis by (simp add: search_try_def)
    next
      case (Some v)
      with Inr PDict assms show ?thesis
        by (cases v)
           (auto simp: search_try_def append_hits_acc takeWhile_is_dict_strings
              split: if_splits)
    qed
  qed (use Inr assms in \<open>simp_all add: search_try_def\<close>)
qed

text \<open>
  Claim C2, amended. \<^verbatim>\<open>search_reports\<close> hands \<^verbatim>\<open>num_results\<close> to the provider and then maps
  every item of the response; it cuts nothing off. When the response is a dictionary
  whose \<^verbatim>\<open>items\<close> is a list, the result has at most as many hits as that list has items:
  one per item, in the order of the list, when all items are dictionaries. So the result
  has at most \<^verbatim>\<open>num_results\<close> hits when the provider returned at most that many items.
\<close>

theorem search_length:
  assumes "execute query cse_id num_results = Inr (PDict kvs)"
    and "map_of kvs ''items'' = Some (PList items)"
  shows "length (search_reports execute cse_id query num_results) \<le> length items
       \<and> (list_all is_dict items \<longrightarrow>
            search_reports execute cse_id query num_results
              = map (\<lambda>it. projr (make_hit it)) items)
       \<and> (int (length items) \<le> num_results \<longrightarrow>
            int (length (search_reports execute cse_id query num_results)) \<le> num_results)"
proof -
  have r: "search_reports execute cse_id query num_results
             = map (\<lambda>it. projr (make_hit it)) (takeWhile is_dict items)"
    using search_try_items [of execute query cse_id num_results kvs items] assms
    by (simp add: search_reports_def)
  have le: "length (takeWhile is_dict items) \<le> length items"
    by (rule length_takeWhile_le)
  have full: "list_all is_dict items \<longrightarrow>
            search_reports execute cse_id query num_results
              = map (\<lambda>it. projr (make_hit it)) items"
  proof
    assume "list_all is_dict items"
    then have "takeWhile is_dict items = items" by (simp add: list_all_iff)
    with r show "search_reports execute cse_id query num_results
              = map (\<lambda>it. projr (make_hit it)) items" by simp
  qed
  from r le have len: "length (search_reports execute cse_id query num_results) \<le> length items"
    by simp
  from len full show ?thesis by auto
qed

theorem search_length_witness:
  "length (search_reports
     (provider_returning
        (PDict [(''items'', PList [PDict [(''title'', PStr ''ESG report''),
                                          (''link'', PStr ''http://a.example/esg''),
                                          (''snippet'', PStr ''2023'')]])]))
     ''cse'' ''sustainability report'' 10) \<le> 1
   \<and> search_reports
     (provider_returning
        (PDict [(''items'', PList [PDict [(''title'', PStr ''ESG report''),
                                          (''link'', PStr ''http://a.example/esg''),
                                          (''snippet'', PStr ''2023'')]])]))
     ''cse'' ''sustainability report'' 10
     = [\<lparr>title = PStr ''ESG report'', link = PStr ''http://a.example/esg'',
         snippet = PStr ''2023''\<rparr>]"
proof -
  let ?items = "[PDict [(''title'', PStr ''ESG report''),
                        (''link'', PStr ''http://a.example/esg''),
                        (''snippet'', PStr ''2023'')]]"
  let ?kvs = "[(''items'', PList ?items)]"
  have h1: "provider_returning (PDict ?kvs) ''sustainability report'' ''cse'' 10
              = Inr (PDict ?kvs)"
    by (simp add: provider_returning_def)
  have h2: "map_of ?kvs ''items'' = Some (PList ?items)" by simp
  from search_length [of "provider_returning (PDict ?kvs)" "''sustainability report''"
         "''cse''" 10 ?kvs ?items] h1 h2
  show ?thesis by (simp add: make_hit_dict)
qed

text \<open>
  Claim C2 as stated fails when the provider returns more items than were asked for: two
  items for a limit of 1 give two hits.
\<close>

theorem search_length_counterexample:
  "\<not> int (length (search_reports
     (provider_returning
        (PDict [(''items'', PList [PDict [(''title'', PStr ''A'')],
                                   PDict [(''title'', PStr ''B'')]])]))
     ''cse'' ''sustainability report'' 1)) \<le> 1"
  by (simp add: search_reports_def search_try_def provider_returning_def make_hit_def)

text \<open>
  Claim C3, amended. An exception that ends the \<^verbatim>\<open>try\<close> block of \<^verbatim>\<open>search_reports\<close> is
  caught, and \<^verbatim>\<open>search_reports\<close> returns the list built up to then. When the request
  itself raises, that list is empty. When the response is a dictionary whose \<^verbatim>\<open>items\<close>
  is a list with an item that is not a dictionary, the exception is raised at the first
  such item, and the list returned holds exactly the hits of the items before it, one
  for each. In no other case is the list returned after an exception non-empty.
\<close>

theorem search_failure:
  "(\<forall>e. execute query cse_id num_results = Inl e \<longrightarrow>
        search_try execute cse_id query num_results = ([], Some e)
      \<and> search_reports execute cse_id query num_results = [])
   \<and> (\<forall>kvs good bad rest.
          execute query cse_id num_results = Inr (PDict kvs)
        \<and> map_of kvs ''items'' = Some (PList (good @ bad # rest))
        \<and> list_all is_dict good \<and> \<not> is_dict bad \<longrightarrow>
          search_try execute cse_id query num_results
            = (map (\<lambda>it. projr (make_hit it)) good, Some AttributeError)
        \<and> search_reports execute cse_id query num_results
            = map (\<lambda>it. projr (make_hit it)) good
        \<and> length (search_reports execute cse_id query num_results) = length good)
   \<and> (\<forall>results e.
          search_try execute cse_id query num_results = (results, Some e) \<longrightarrow>
          search_reports execute cse_id query num_results = results
        \<and> (results \<noteq> [] \<longrightarrow>
              (\<exists>kvs items. execute query cse_id num_results = Inr (PDict kvs)
                 \<and> map_of kvs ''items'' = Some (PList items)
                 \<and> \<not> list_all is_dict items
                 \<and> results = map (\<lambda>it. projr (make_hit it)) (takeWhile is_dict items))))"
proof -
  have a: "\<forall>e. execute query cse_id num_results = Inl e \<longrightarrow>
        search_try execute cse_id query num_results = ([], Some e)
      \<and> search_reports execute cse_id query num_results = []"
    by (simp add: search_reports_def search_try_def)
  have b: "\<forall>kvs good bad rest.
          execute query cse_id num_results = Inr (PDict kvs)
        \<and> map_of kvs ''items'' = Some (PList (good @ bad # rest))
        \<and> list_all is_dict good \<and> \<not> is_dict bad \<longrightarrow>
          search_try execute cse_id query num_results
            = (map (\<lambda>it. projr (make_hit it)) good, Some AttributeError)
        \<and> search_reports execute cse_id query num_results
            = map (\<lambda>it. projr (make_hit it)) good
        \<and> length (search_reports execute cse_id query num_results) = length good"
  proof (intro allI impI)
    fix kvs good bad rest
    assume h: "execute query cse_id num_results = Inr (PDict kvs)
        \<and> map_of kvs ''items'' = Some (PList (good @ bad # rest))
        \<and> list_all is_dict good \<and> \<not> is_dict bad"
    then have tw: "takeWhile is_dict (good @ bad # rest) = good"
      by (simp add: list_all_iff)
    from h have na: "\<not> list_all is_dict (good @ bad # rest)" by simp
    from search_try_items [of execute query cse_id num_results kvs "good @ bad # rest"] h
    have "search_try execute cse_id query num_results
            = (map (\<lambda>it. projr (make_hit it)) good, Some AttributeError)"
      using tw na by simp
    then show "search_try execute cse_id query num_results
            = (map (\<lambda>it. projr (make_hit it)) good, Some AttributeError)
        \<and> search_reports execute cse_id query num_results
            = map (\<lambda>it. projr (make_hit it)) good
        \<and> length (search_reports execute cse_id query num_results) = length good"
      by (simp add: search_reports_def)
  qed
  have c: "\<forall>results e.
          search_try execute cse_id query num_results = (results, Some e) \<longrightarrow>
          search_reports execute cse_id query num_results = results
        \<and> (results \<noteq> [] \<longrightarrow>
              (\<exists>kvs items. execute query cse_id num_results = Inr (PDict kvs)
                 \<and> map_of kvs ''items'' = Some (PList items)
                 \<and> \<not> list_all is_dict items
                 \<and> results = map (\<lambda>it. projr (make_hit it)) (takeWhile is_dict items)))"
  proof (intro allI impI conjI)
    fix results e
    assume st: "search_try execute cse_id query num_results = (results, Some e)"
    then show "search_reports execute cse_id query num_results = results"
      by (simp add: search_reports_def)
    assume ne: "results \<noteq> []"
    from search_try_nonempty [OF st ne] obtain kvs items where
      ex: "execute query cse_id num_results = Inr (PDict kvs)"
      and it: "map_of kvs ''items'' = Some (PList items)" by blast
    from search_try_items [of execute query cse_id num_results kvs items] ex it st
    have "results = map (\<lambda>it. projr (make_hit it)) (takeWhile is_dict items)"
      and "\<not> list_all is_dict items"
      by (auto split: if_splits)
    with ex it show "\<exists>kvs items. execute query cse_id num_results = Inr (PDict kvs)
               \<and> map_of kvs ''items'' = Some (PList items)
               \<and> \<not> list_all is_dict items
               \<and> results = map (\<lambda>it. projr (make_hit it)) (takeWhile is_dict items)"
      by blast
  qed
  from a b c show ?thesis by (intro conjI)
qed

theorem search_failure_witness:
  "search_reports (provider_raising (ProviderError ''quotaExceeded'')) ''cse'' ''esg'' 10 = []
   \<and> search_reports
       (provider_returning
          (PDict [(''items'',
                   PList [PDict [(''title'', PStr ''A''), (''link'', PStr ''http://a.example/esg'')],
                          PDict [(''title'', PStr ''B''), (''snippet'', PStr ''report'')],
                          PStr ''C'',
                          PDict [(''title'', PStr ''D'')]])]))
       ''cse'' ''esg'' 10
     = [\<lparr>title = PStr ''A'', link = PStr ''http://a.example/esg'', snippet = PNone\<rparr>,
        \<lparr>title = PStr ''B'', link = PNone, snippet = PStr ''report''\<rparr>]
   \<and> search_try
       (provider_returning
          (PDict [(''items'',
                   PList [PDict [(''title'', PStr ''A''), (''link'', PStr ''http://a.example/esg'')],
                          PDict [(''title'', PStr ''B''), (''snippet'', PStr ''report'')],
                          PStr ''C'',
                          PDict [(''title'', PStr ''D'')]])]))
       ''cse'' ''esg'' 10
     = ([\<lparr>title = PStr ''A'', link = PStr ''http://a.example/esg'', snippet = PNone\<rparr>,
         \<lparr>title = PStr ''B'', link = PNone, snippet = PStr ''report''\<rparr>],
        Some AttributeError)"
proof -
  let ?good = "[PDict [(''title'', PStr ''A''), (''link'', PStr ''http://a.example/esg'')],
                PDict [(''title'', PStr ''B''), (''snippet'', PStr ''report'')]]"
  let ?bad = "PStr ''C''"
  let ?rest = "[PDict [(''title'', PStr ''D'')]]"
  let ?kvs = "[(''items'', PList (?good @ ?bad # ?rest))]"
  let ?p = "provider_returning (PDict ?kvs)"
  have r: "provider_raising (ProviderError ''quotaExceeded'') ''esg'' ''cse'' 10
             = Inl (ProviderError ''quotaExceeded'')"
    by (simp add: provider_raising_def)
  from search_failure [of "provider_raising (ProviderError ''quotaExceeded'')" "''esg''" "''cse''" 10] r
  have 1: "search_reports (provider_raising (ProviderError ''quotaExceeded'')) ''cse'' ''esg'' 10 = []"
    by blast
  have h: "?p ''esg'' ''cse'' 10 = Inr (PDict ?kvs)
        \<and> map_of ?kvs ''items'' = Some (PList (?good @ ?bad # ?rest))
        \<and> list_all is_dict ?good \<and> \<not> is_dict ?bad"
    by (simp add: provider_returning_def)
  from search_failure [of ?p "''esg''" "''cse''" 10] h
  have 2: "search_try ?p ''cse'' ''esg'' 10
             = (map (\<lambda>it. projr (make_hit it)) ?good, Some AttributeError)
         \<and> search_reports ?p ''cse'' ''esg'' 10 = map (\<lambda>it. projr (make_hit it)) ?good"
    by blast
  from 1 2 show ?thesis by (simp add: make_hit_dict)
qed

text \<open>
  Claim C3 as stated fails for a failure while the returned items are mapped: the hits
  appended before the failing item are returned.
\<close>

theorem search_failure_counterexample:
  "search_try
     (provider_returning (PDict [(''items'', PList [PDict [(''title'', PStr ''A'')], PNone])]))
     ''cse'' ''esg'' 10
     = ([\<lparr>title = PStr ''A'', link = PNone, snippet = PNone\<rparr>], Some AttributeError)
   \<and> search_reports
     (provider_returning (PDict [(''items'', PList [PDict [(''title'', PStr ''A'')], PNone])]))
     ''cse'' ''esg'' 10
     = [\<lparr>title = PStr ''A'', link = PNone, snippet = PNone\<rparr>]"
  by (simp add: search_reports_def search_try_def provider_returning_def make_hit_def)

section \<open>What the fetcher does\<close>

lemma starts_with_prefix: "starts_with p s = prefix p s"
  by (induction p s rule: starts_with.induct) auto

lemma str_in_sublist: "str_in p s = sublist p s"
  by (induction s) (auto simp: starts_with_prefix sublist_Cons_right)

lemma split_on_not_Nil: "split_on sep s \<noteq> []"
  by (induction s) (auto split: list.splits)





section \<open>What processing the search results does\<close>

lemma validate_parse_returns: "\<exists>v. validate_data (parse_esg_data c) = Inr v"
proof (cases "missing_messages (parse_esg_data c) = []")
  case True
  then have "parse_esg_data c ''carbon_emissions'' \<noteq> None"
    and "parse_esg_data c ''net_zero_target'' \<noteq> None"
    by (auto simp: missing_messages_def split: if_splits)
  then show ?thesis by (simp add: validate_data_complete)
next
  case False
  with parse_esg_data_no_error [of c] show ?thesis by (simp add: validate_data_None)
qed

lemma process_loop_records:
  "\<exists>w'. process_loop io w hits acc
     = (Inr (acc @ map (\<lambda>(h, c). update_source (projr (validate_data (parse_esg_data c))) h)
                        (fetched_hits io w hits)), w')"
proof (induction hits arbitrary: w acc)
  case Nil
  show ?case by simp
next
  case (Cons h hs)
  obtain r w1 where f: "fetch_content io w (link h) = (r, w1)" by (cases "fetch_content io w (link h)")
  show ?case
  proof (cases r)
    case None
    with f Cons.IH [of w1 acc] show ?thesis by simp
  next
    case (Some c)
    from validate_parse_returns [of c] obtain v where v: "validate_data (parse_esg_data c) = Inr v"
      by blast
    from Cons.IH [of w1 "acc @ [update_source v h]"]
    show ?thesis using f Some v by simp
  qed
qed

lemma fetched_hits_subseq: "subseq (map fst (fetched_hits io w hits)) hits"
proof (induction hits arbitrary: w)
  case Nil
  show ?case by simp
next
  case (Cons h hs)
  obtain r w1 where f: "fetch_content io w (link h) = (r, w1)" by (cases "fetch_content io w (link h)")
  show ?case using f Cons.IH [of w1] by (cases r) auto
qed

text \<open>
  Claim C4. For every list of hits \<^verbatim>\<open>process_search_results\<close> returns a list of records and
  raises nothing. The records correspond one to one, in order, to the hits for which
  \<^verbatim>\<open>fetch_content\<close> returned content, and these are a subsequence of the hits given: a
  hit whose fetch returned \<^verbatim>\<open>None\<close> leaves no record. The record of a hit is the validated
  data extracted from its content, with \<^verbatim>\<open>source\<close>, \<^verbatim>\<open>title\<close> and \<^verbatim>\<open>snippet\<close> set to the
  link, the title and the snippet of that hit.
\<close>

theorem process_records:
  "\<exists>recs w'.
      process_search_results io w hits = (Inr recs, w')
    \<and> list_all2
        (\<lambda>(h, c) d.
            d ''source'' = Some (link h) \<and> d ''title'' = Some (title h)
          \<and> d ''snippet'' = Some (snippet h)
          \<and> (\<exists>v. validate_data (parse_esg_data c) = Inr v
                 \<and> d = v(''source'' \<mapsto> link h, ''title'' \<mapsto> title h,
                         ''snippet'' \<mapsto> snippet h)))
        (fetched_hits io w hits) recs
    \<and> length recs = length (fetched_hits io w hits)
    \<and> subseq (map fst (fetched_hits io w hits)) hits"
proof -
  let ?rec = "\<lambda>(h, c). update_source (projr (validate_data (parse_esg_data c))) h"
  from process_loop_records [of io w hits "[]"] obtain w' where
    run: "process_search_results io w hits = (Inr (map ?rec (fetched_hits io w hits)), w')"
    by (auto simp: process_search_results_def)
  have each: "list_all2
        (\<lambda>(h, c) d.
            d ''source'' = Some (link h) \<and> d ''title'' = Some (title h)
          \<and> d ''snippet'' = Some (snippet h)
          \<and> (\<exists>v. validate_data (parse_esg_data c) = Inr v
                 \<and> d = v(''source'' \<mapsto> link h, ''title'' \<mapsto> title h,
                         ''snippet'' \<mapsto> snippet h)))
        (fetched_hits io w hits) (map ?rec (fetched_hits io w hits))"
  proof (rule list_all2_all_nthI)
    show "length (fetched_hits io w hits) = length (map ?rec (fetched_hits io w hits))" by simp
  next
    fix n assume n: "n < length (fetched_hits io w hits)"
    obtain h c where hc: "fetched_hits io w hits ! n = (h, c)"
      by (cases "fetched_hits io w hits ! n")
    from validate_parse_returns [of c] obtain v where v: "validate_data (parse_esg_data c) = Inr v"
      by blast
    show "(case fetched_hits io w hits ! n of (h, c) \<Rightarrow> \<lambda>d.
            d ''source'' = Some (link h) \<and> d ''title'' = Some (title h)
          \<and> d ''snippet'' = Some (snippet h)
          \<and> (\<exists>v. validate_data (parse_esg_data c) = Inr v
                 \<and> d = v(''source'' \<mapsto> link h, ''title'' \<mapsto> title h,
                         ''snippet'' \<mapsto> snippet h)))
          (map ?rec (fetched_hits io w hits) ! n)"
      using n hc v by (simp add: update_source_def)
  qed
  from run each fetched_hits_subseq [of io w hits] show ?thesis
    by (intro exI [of _ "map ?rec (fetched_hits io w hits)"] exI [of _ w']) simp
qed


theorem process_records_witness:
  "fst (process_search_results (static_io three_documents) ()
          [\<lparr>title = PStr ''A'', link = PStr ''http://a.example/esg'', snippet = PStr ''ESG''\<rparr>,
           \<lparr>title = PStr ''B'', link = PStr ''http://b.example/gone'', snippet = PNone\<rparr>])
     = Inr [ [''carbon_emissions'' \<mapsto> PStr ''1,234 tCO2e'',
             ''net_zero_target'' \<mapsto> PStr ''2045'',
             ''source'' \<mapsto> PStr ''http://a.example/esg'',
             ''title'' \<mapsto> PStr ''A'',
             ''snippet'' \<mapsto> PStr ''ESG'']]"
proof -
  let ?io = "static_io three_documents"
  let ?A = "\<lparr>title = PStr ''A'', link = PStr ''http://a.example/esg'', snippet = PStr ''ESG''\<rparr>"
  let ?B = "\<lparr>title = PStr ''B'', link = PStr ''http://b.example/gone'', snippet = PNone\<rparr>"
  let ?c = "\<lparr>ftype = ''html'',
             fcontent = ''Our carbon emissions were 1,234 tCO2e. We aim to be net-zero by 2045.''\<rparr>"
  have fa: "fetch_content ?io () (PStr ''http://a.example/esg'') = (Some ?c, ())"
    by (simp add: fetch_content_def static_io_def three_documents_def content_type_def
          raise_for_status_def)
  have fb: "fetch_content ?io () (PStr ''http://b.example/gone'') = (None, ())"
    by (simp add: fetch_content_def static_io_def three_documents_def content_type_def
          raise_for_status_def)
  have fh: "fetched_hits ?io () [?A, ?B] = [(?A, ?c)]"
    by (simp add: fa fb)
  have p: "parse_esg_data ?c = [''carbon_emissions'' \<mapsto> PStr ''1,234 tCO2e'',
                                ''net_zero_target'' \<mapsto> PStr ''2045'']"
    by (simp add: parse_esg_data_def carbon_match_at_def net_zero_match_at_def is_digit_def
          is_num_char_def number_at_def unit_at_def ascii_lower_def)
  have v: "validate_data (parse_esg_data ?c) = Inr (parse_esg_data ?c)"
    by (rule validate_data_complete) (simp_all add: p)
  from process_records [of ?io "()" "[?A, ?B]"] obtain recs w' where
    run: "process_search_results ?io () [?A, ?B] = (Inr recs, w')"
    and each: "list_all2
        (\<lambda>(h, c) d.
            d ''source'' = Some (link h) \<and> d ''title'' = Some (title h)
          \<and> d ''snippet'' = Some (snippet h)
          \<and> (\<exists>v. validate_data (parse_esg_data c) = Inr v
                 \<and> d = v(''source'' \<mapsto> link h, ''title'' \<mapsto> title h,
                         ''snippet'' \<mapsto> snippet h)))
        (fetched_hits ?io () [?A, ?B]) recs"
    by blast
  from each have "recs = [(parse_esg_data ?c)(''source'' \<mapsto> link ?A, ''title'' \<mapsto> title ?A,
                         ''snippet'' \<mapsto> snippet ?A)]"
    unfolding fh by (auto simp: list_all2_Cons1 v)
  with run show ?thesis by (simp add: p)
qed

end
